theory Spec2Isabelle
  imports Main "HOL-Library.Word" "HOL-Library.Char_ord" "HOL-Library.Signed_Division"
begin

section \<open>Go values and failures\<close>

text \<open>
  A Go \<open>rune\<close> is an \<open>int32\<close>, a \<open>byte\<close> is eight bits (an Isabelle \<open>char\<close>), and \<open>int\<close> is
  taken to be 64 bits wide (as on amd64 and arm64); its arithmetic wraps around.
  The input text is given as the sequence of runes that \<open>for _, char := range input\<close>
  delivers.
\<close>

type_synonym rune = "32 word"
type_synonym go_int = "64 word"

text \<open>
  None of the functions returns an error value. A function either returns or panics, and no
  \<open>recover\<close> occurs anywhere, so a panic ends the process. A panic is either raised by a
  \<open>panic("...")\<close> statement of the source or by the Go runtime.
\<close>

datatype runtime_error = NilPointerDereference | IndexOutOfRange | IntegerDivideByZero

datatype panic = Explicit string | Runtime runtime_error

text \<open>The runes of an ASCII literal, to write inputs down.\<close>

definition runes :: "string \<Rightarrow> rune list" where
  "runes s = map of_char s"

section \<open>Tokens and expressions\<close>

datatype TokenType = Integer | Operand | Prefix

datatype Token =
    IntegerToken "32 word"
  | OperatorToken string
  | PrefixToken string

fun getTokenType :: "Token \<Rightarrow> TokenType" where
  "getTokenType (PrefixToken lit) = Prefix"
| "getTokenType (IntegerToken v) = Integer"
| "getTokenType (OperatorToken lit) = Operand"

text \<open>\<open>strconv.Itoa\<close>: the decimal text of an integer.\<close>

function nat_digits :: "nat \<Rightarrow> string" where
  "nat_digits n =
     (if n < 10 then [char_of (48 + n)]
      else nat_digits (n div 10) @ [char_of (48 + n mod 10)])"
  by pat_completeness auto
termination
  by (relation "measure (\<lambda>n. n)") auto

definition Itoa :: "int \<Rightarrow> string" where
  "Itoa i = (if i < 0 then CHR ''-'' # nat_digits (nat (- i)) else nat_digits (nat i))"

text \<open>\<open>getExpressionValue\<close> of the three token types.\<close>

fun getExpressionValue :: "Token \<Rightarrow> string" where
  "getExpressionValue (IntegerToken v) = Itoa (sint v)"
| "getExpressionValue (OperatorToken lit) = lit"
| "getExpressionValue (PrefixToken lit) = lit"

text \<open>
  An \<open>Expression\<close> is an interface value: \<open>nil\<close>, a token (every token type has the method
  \<open>getExpressionValue\<close>), a \<open>PrefixExpression{op, rhs}\<close> or an \<open>InfixExpression{lhs, rhs, op}\<close>.
\<close>

datatype Expression =
    NilExpression
  | TokenExpression Token
  | PrefixExpression string Expression
  | InfixExpression Expression Expression string

record Lexer =
  tokens :: "Token list"

section \<open>The tokenizer\<close>

text \<open>\<open>strconv.Atoi\<close>: an optional sign and decimal digits, within the range of \<open>int\<close>;
  \<open>None\<close> stands for a non-nil \<open>err\<close>.\<close>

definition is_digit :: "char \<Rightarrow> bool" where
  "is_digit c = (CHR ''0'' \<le> c \<and> c \<le> CHR ''9'')"

definition Atoi :: "string \<Rightarrow> int option" where
  "Atoi s =
     (let neg = (s \<noteq> [] \<and> hd s = CHR ''-'');
          ds = (if s \<noteq> [] \<and> (hd s = CHR ''-'' \<or> hd s = CHR ''+'') then tl s else s)
      in if ds = [] \<or> \<not> list_all is_digit ds then None
         else let v = foldl (\<lambda>a c. 10 * a + (of_char c - 48)) (0::int) ds;
                  w = (if neg then - v else v)
              in if w < - (2 ^ 63) \<or> 2 ^ 63 \<le> w then None else Some w)"

text \<open>The first loop of \<open>New\<close>: every rune is cut down to its low byte by \<open>byte(char)\<close>.\<close>

definition charArray :: "rune list \<Rightarrow> char list" where
  "charArray input = map (\<lambda>char. char_of (unat char)) input"

text \<open>The second loop of \<open>New\<close>, appending to \<open>tokenArray\<close>.\<close>

fun tokenArray_loop :: "char list \<Rightarrow> Token list \<Rightarrow> panic + Token list" where
  "tokenArray_loop [] tokenArray = Inr tokenArray"
| "tokenArray_loop (c # cs) tokenArray =
     (if c = CHR '' '' \<or> c = CHR 0x0D \<or> c = CHR 0x09 \<or> c = CHR 0x0A then
        tokenArray_loop cs tokenArray
      else if c \<ge> CHR ''0'' \<and> c \<le> CHR ''9'' then
        (case Atoi [c] of
           None \<Rightarrow> Inl (Explicit ''This should not have happened'')
         | Some intValue \<Rightarrow>
             tokenArray_loop cs (tokenArray @ [IntegerToken (word_of_int intValue)]))
      else if c = CHR ''+'' \<or> c = CHR ''-'' \<or> c = CHR ''*'' \<or> c = CHR ''/'' then
        tokenArray_loop cs (tokenArray @ [OperatorToken [c]])
      else tokenArray_loop cs tokenArray)"

text \<open>
  \<open>TokenArray.Reverse\<close> of main.go: the loop runs while \<open>e - s >= 1\<close>. From \<open>Reverse\<close> the
  indices stay within the slice (\<open>0 \<le> s < e < len(c)\<close> at every swap).
\<close>

function Reverse_loop :: "'a list \<Rightarrow> int \<Rightarrow> int \<Rightarrow> 'a list" where
  "Reverse_loop c s e =
     (if e - s \<ge> 1 then
        Reverse_loop (c[nat s := c ! nat e, nat e := c ! nat s]) (s + 1) (e - 1)
      else c)"
  by pat_completeness auto
termination
  by (relation "measure (\<lambda>(c, s, e). nat (e - s))") auto

definition Reverse :: "'a list \<Rightarrow> 'a list" where
  "Reverse c = Reverse_loop c 0 (int (length c) - 1)"

definition New :: "rune list \<Rightarrow> panic + Lexer" where
  "New input =
     (case tokenArray_loop (charArray input) [] of
        Inl p \<Rightarrow> Inl p
      | Inr tokenArray \<Rightarrow> Inr \<lparr>tokens = Reverse tokenArray\<rparr>)"

section \<open>The token cursor\<close>

text \<open>\<open>next\<close> and \<open>peek\<close> of main.go; \<open>None\<close> is the \<open>nil\<close> token.\<close>

definition Lexer_next :: "Lexer \<Rightarrow> Token option \<times> Lexer" where
  "Lexer_next l =
     (if length (tokens l) = 0 then (None, l)
      else (Some (last (tokens l)), l\<lparr>tokens := butlast (tokens l)\<rparr>))"

definition Lexer_peek :: "Lexer \<Rightarrow> Token option" where
  "Lexer_peek l = (if length (tokens l) < 1 then None else Some (last (tokens l)))"

section \<open>The parser\<close>

definition operatorBindingPowerMap :: "string \<rightharpoonup> int list" where
  "operatorBindingPowerMap =
     [''+'' \<mapsto> [1, 2], ''-'' \<mapsto> [1, 2], ''*'' \<mapsto> [3, 4], ''/'' \<mapsto> [3, 4]]"

definition prefixBindingPowerMap :: "string \<rightharpoonup> int list" where
  "prefixBindingPowerMap = [''+'' \<mapsto> [0, 5], ''-'' \<mapsto> [0, 5]]"

text \<open>
  \<open>m[key][i]\<close>: a missing key gives the nil slice, and an index outside the slice is a
  runtime panic.
\<close>

definition map_index :: "(string \<rightharpoonup> int list) \<Rightarrow> string \<Rightarrow> nat \<Rightarrow> panic + int" where
  "map_index m key i =
     (let slice = (case m key of None \<Rightarrow> [] | Some s \<Rightarrow> s)
      in if i < length slice then Inr (slice ! i) else Inl (Runtime IndexOutOfRange))"

text \<open>The literal read after the type assertion \<open>lhsExpr.(OperatorToken)\<close> in the
  \<open>Operand\<close> case (only operator tokens have that token type).\<close>

fun OperatorToken_literal :: "Token \<Rightarrow> string" where
  "OperatorToken_literal (OperatorToken lit) = lit"
| "OperatorToken_literal t = ''''"

text \<open>
  \<open>parse\<close> of main.go. The first argument bounds the depth of the calls (of \<open>parse\<close> and of
  the iterations of its loop); \<open>None\<close> means the bound was reached. The lexer is passed in
  and returned, since \<open>parse\<close> consumes tokens from it.
\<close>

fun parse :: "nat \<Rightarrow> Lexer \<Rightarrow> int \<Rightarrow> (panic + Expression \<times> Lexer) option"
  and parse_loop :: "nat \<Rightarrow> Lexer \<Rightarrow> int \<Rightarrow> Expression \<Rightarrow> (panic + Expression \<times> Lexer) option"
where
  "parse 0 l min_bp = None"
| "parse (Suc n) l min_bp =
     (case Lexer_next l of
        (None, l1) \<Rightarrow> Some (Inl (Runtime NilPointerDereference))
      | (Some lhsExpr, l1) \<Rightarrow>
          (case getTokenType lhsExpr of
             Integer \<Rightarrow> parse_loop n l1 min_bp (TokenExpression lhsExpr)
           | Operand \<Rightarrow>
               (case (if OperatorToken_literal lhsExpr = ''(''
                      then (case parse n (snd (Lexer_next l1)) 0 of
                              None \<Rightarrow> None
                            | Some (Inl p) \<Rightarrow> Some (Inl p)
                            | Some (Inr (expr, l2)) \<Rightarrow>
                                (case Lexer_peek l2 of
                                   None \<Rightarrow> Some (Inl (Runtime NilPointerDereference))
                                 | Some t \<Rightarrow>
                                     if \<not> (getExpressionValue t = '')'')
                                     then Some (Inl (Explicit ''Expected right paren''))
                                     else Some (Inr l2)))
                      else Some (Inr l1)) of
                  None \<Rightarrow> None
                | Some (Inl p) \<Rightarrow> Some (Inl p)
                | Some (Inr l3) \<Rightarrow>
                    (case map_index prefixBindingPowerMap (OperatorToken_literal lhsExpr) 1 of
                       Inl p \<Rightarrow> Some (Inl p)
                     | Inr r_bp \<Rightarrow>
                         (case parse n l3 r_bp of
                            None \<Rightarrow> None
                          | Some (Inl p) \<Rightarrow> Some (Inl p)
                          | Some (Inr (rhs, l4)) \<Rightarrow>
                              parse_loop n l4 min_bp
                                (PrefixExpression (OperatorToken_literal lhsExpr) rhs))))
           | Prefix \<Rightarrow> parse_loop n l1 min_bp NilExpression))"
| "parse_loop 0 l min_bp lhs = None"
| "parse_loop (Suc n) l min_bp lhs =
     (case Lexer_peek l of
        None \<Rightarrow> Some (Inr (lhs, l))
      | Some (OperatorToken lit) \<Rightarrow>
          (case map_index operatorBindingPowerMap lit 0 of
             Inl p \<Rightarrow> Some (Inl p)
           | Inr l_bp \<Rightarrow>
               (case map_index operatorBindingPowerMap lit 1 of
                  Inl p \<Rightarrow> Some (Inl p)
                | Inr r_bp \<Rightarrow>
                    if l_bp < min_bp then Some (Inr (lhs, l))
                    else (case parse n (snd (Lexer_next l)) r_bp of
                            None \<Rightarrow> None
                          | Some (Inl p) \<Rightarrow> Some (Inl p)
                          | Some (Inr (rhs, l2)) \<Rightarrow>
                              parse_loop n l2 min_bp (InfixExpression lhs rhs lit))))
      | Some t \<Rightarrow> Some (Inl (Explicit ''Integer should be followed by an operand'')))"

section \<open>The evaluator\<close>

text \<open>Go's \<open>/\<close> on \<open>int\<close>: the quotient is truncated towards zero and wraps around (the
  most negative value divided by \<open>-1\<close> is itself); a zero divisor is a runtime panic.\<close>

definition go_div :: "go_int \<Rightarrow> go_int \<Rightarrow> panic + go_int" where
  "go_div a b =
     (if b = 0 then Inl (Runtime IntegerDivideByZero)
      else Inr (word_of_int (sint a sdiv sint b)))"

text \<open>\<open>operationFunctionMap\<close>; \<open>None\<close> is the nil function of a missing key.\<close>

definition operationFunctionMap :: "string \<rightharpoonup> (go_int \<Rightarrow> go_int \<Rightarrow> panic + go_int)" where
  "operationFunctionMap =
     [''+'' \<mapsto> (\<lambda>a b. Inr (a + b)),
      ''-'' \<mapsto> (\<lambda>a b. Inr (a - b)),
      ''*'' \<mapsto> (\<lambda>a b. Inr (a * b)),
      ''/'' \<mapsto> (\<lambda>a b. go_div a b)]"

text \<open>
  \<open>evalExpression\<close> and \<open>evalPrefix\<close> of main.go. In the infix case both operands are
  evaluated, left to right, before the function taken from the map is called.
\<close>

fun evalExpression :: "Expression \<Rightarrow> panic + go_int"
  and evalPrefix :: "string \<Rightarrow> Expression \<Rightarrow> panic + go_int"
where
  "evalExpression (TokenExpression (IntegerToken v)) = Inr (scast v)"
| "evalExpression (PrefixExpression op rhs) = evalPrefix op rhs"
| "evalExpression (InfixExpression lhs rhs op) =
     (case evalExpression lhs of
        Inl p \<Rightarrow> Inl p
      | Inr a \<Rightarrow>
          (case evalExpression rhs of
             Inl p \<Rightarrow> Inl p
           | Inr b \<Rightarrow>
               (case operationFunctionMap op of
                  None \<Rightarrow> Inl (Runtime NilPointerDereference)
                | Some f \<Rightarrow> f a b)))"
| "evalExpression e = Inr 0"
| "evalPrefix op rhs =
     (if op = ''+'' then
        (case evalExpression rhs of Inl p \<Rightarrow> Inl p | Inr v \<Rightarrow> Inr (1 * v))
      else if op = ''-'' then
        (case evalExpression rhs of Inl p \<Rightarrow> Inl p | Inr v \<Rightarrow> Inr ((- 1) * v))
      else Inl (Explicit ''Should not reach here''))"

text \<open>
  \<open>main\<close> of main.go on the line \<open>a\<close> it has read: the value it prints, or the panic that
  ends it. \<open>parse\<close> is given one more level of depth than there are tokens.
\<close>

definition main :: "rune list \<Rightarrow> (panic + go_int) option" where
  "main a =
     (case New a of
        Inl p \<Rightarrow> Some (Inl p)
      | Inr lexer \<Rightarrow>
          (case parse (Suc (length (tokens lexer))) lexer 0 of
             None \<Rightarrow> None
           | Some (Inl p) \<Rightarrow> Some (Inl p)
           | Some (Inr (parsed, l)) \<Rightarrow> Some (evalExpression parsed)))"

section \<open>The variant with prefix operators and no parenthesis branch (part_000)\<close>

text \<open>
  Its tokenizer, \<open>Reverse\<close>, \<open>next\<close> and \<open>peek\<close> are those of main.go, letter for letter.
  Its \<open>parse\<close> is that of main.go without the branch for \<open>"("\<close>.
\<close>

fun parse_000 :: "nat \<Rightarrow> Lexer \<Rightarrow> int \<Rightarrow> (panic + Expression \<times> Lexer) option"
  and parse_loop_000 :: "nat \<Rightarrow> Lexer \<Rightarrow> int \<Rightarrow> Expression \<Rightarrow> (panic + Expression \<times> Lexer) option"
where
  "parse_000 0 l min_bp = None"
| "parse_000 (Suc n) l min_bp =
     (case Lexer_next l of
        (None, l1) \<Rightarrow> Some (Inl (Runtime NilPointerDereference))
      | (Some lhsExpr, l1) \<Rightarrow>
          (case getTokenType lhsExpr of
             Integer \<Rightarrow> parse_loop_000 n l1 min_bp (TokenExpression lhsExpr)
           | Operand \<Rightarrow>
               (case map_index prefixBindingPowerMap (OperatorToken_literal lhsExpr) 1 of
                  Inl p \<Rightarrow> Some (Inl p)
                | Inr r_bp \<Rightarrow>
                    (case parse_000 n l1 r_bp of
                       None \<Rightarrow> None
                     | Some (Inl p) \<Rightarrow> Some (Inl p)
                     | Some (Inr (rhs, l2)) \<Rightarrow>
                         parse_loop_000 n l2 min_bp
                           (PrefixExpression (OperatorToken_literal lhsExpr) rhs)))
           | Prefix \<Rightarrow> parse_loop_000 n l1 min_bp NilExpression))"
| "parse_loop_000 0 l min_bp lhs = None"
| "parse_loop_000 (Suc n) l min_bp lhs =
     (case Lexer_peek l of
        None \<Rightarrow> Some (Inr (lhs, l))
      | Some (OperatorToken lit) \<Rightarrow>
          (case map_index operatorBindingPowerMap lit 0 of
             Inl p \<Rightarrow> Some (Inl p)
           | Inr l_bp \<Rightarrow>
               (case map_index operatorBindingPowerMap lit 1 of
                  Inl p \<Rightarrow> Some (Inl p)
                | Inr r_bp \<Rightarrow>
                    if l_bp < min_bp then Some (Inr (lhs, l))
                    else (case parse_000 n (snd (Lexer_next l)) r_bp of
                            None \<Rightarrow> None
                          | Some (Inl p) \<Rightarrow> Some (Inl p)
                          | Some (Inr (rhs, l2)) \<Rightarrow>
                              parse_loop_000 n l2 min_bp (InfixExpression lhs rhs lit))))
      | Some t \<Rightarrow> Some (Inl (Explicit ''Integer should be followed by an operand'')))"

section \<open>The variant without prefix operators (part_001)\<close>

text \<open>
  It has no \<open>PrefixToken\<close> and no \<open>PrefixExpression\<close>; none of its functions builds one.
  Its \<open>Reverse\<close> runs while \<open>e - s > 1\<close>, its \<open>next\<close> panics on an empty slice, its
  \<open>parse\<close> wants an integer first. Its \<open>peek\<close> and its scanning loop are those of main.go.
\<close>

function Reverse_loop_001 :: "'a list \<Rightarrow> int \<Rightarrow> int \<Rightarrow> 'a list" where
  "Reverse_loop_001 c s e =
     (if e - s > 1 then
        Reverse_loop_001 (c[nat s := c ! nat e, nat e := c ! nat s]) (s + 1) (e - 1)
      else c)"
  by pat_completeness auto
termination
  by (relation "measure (\<lambda>(c, s, e). nat (e - s))") auto

definition Reverse_001 :: "'a list \<Rightarrow> 'a list" where
  "Reverse_001 c = Reverse_loop_001 c 0 (int (length c) - 1)"

definition New_001 :: "rune list \<Rightarrow> panic + Lexer" where
  "New_001 input =
     (case tokenArray_loop (charArray input) [] of
        Inl p \<Rightarrow> Inl p
      | Inr tokenArray \<Rightarrow> Inr \<lparr>tokens = Reverse_001 tokenArray\<rparr>)"

definition Lexer_next_001 :: "Lexer \<Rightarrow> panic + Token \<times> Lexer" where
  "Lexer_next_001 l =
     (if length (tokens l) = 0 then Inl (Explicit ''Error: tokens empty'')
      else Inr (last (tokens l), l\<lparr>tokens := butlast (tokens l)\<rparr>))"

fun parse_001 :: "nat \<Rightarrow> Lexer \<Rightarrow> int \<Rightarrow> (panic + Expression \<times> Lexer) option"
  and parse_loop_001 :: "nat \<Rightarrow> Lexer \<Rightarrow> int \<Rightarrow> Expression \<Rightarrow> (panic + Expression \<times> Lexer) option"
where
  "parse_001 0 l min_bp = None"
| "parse_001 (Suc n) l min_bp =
     (case Lexer_next_001 l of
        Inl p \<Rightarrow> Some (Inl p)
      | Inr (IntegerToken v, l1) \<Rightarrow>
          parse_loop_001 n l1 min_bp (TokenExpression (IntegerToken v))
      | Inr (t, l1) \<Rightarrow> Some (Inl (Explicit ''Expression should start with an integer'')))"
| "parse_loop_001 0 l min_bp lhs = None"
| "parse_loop_001 (Suc n) l min_bp lhs =
     (case Lexer_peek l of
        None \<Rightarrow> Some (Inr (lhs, l))
      | Some (OperatorToken lit) \<Rightarrow>
          (case map_index operatorBindingPowerMap lit 0 of
             Inl p \<Rightarrow> Some (Inl p)
           | Inr l_bp \<Rightarrow>
               (case map_index operatorBindingPowerMap lit 1 of
                  Inl p \<Rightarrow> Some (Inl p)
                | Inr r_bp \<Rightarrow>
                    if l_bp < min_bp then Some (Inr (lhs, l))
                    else (case Lexer_next_001 l of
                            Inl p \<Rightarrow> Some (Inl p)
                          | Inr (t, l1) \<Rightarrow>
                              (case parse_001 n l1 r_bp of
                                 None \<Rightarrow> None
                               | Some (Inl p) \<Rightarrow> Some (Inl p)
                               | Some (Inr (rhs, l2)) \<Rightarrow>
                                   parse_loop_001 n l2 min_bp (InfixExpression lhs rhs lit)))))
      | Some t \<Rightarrow> Some (Inl (Explicit ''Integer should be followed by an operand'')))"

definition add :: "go_int \<Rightarrow> go_int \<Rightarrow> panic + go_int" where
  "add a b = Inr (a + b)"

definition subtract :: "go_int \<Rightarrow> go_int \<Rightarrow> panic + go_int" where
  "subtract a b = Inr (a - b)"

definition multiply :: "go_int \<Rightarrow> go_int \<Rightarrow> panic + go_int" where
  "multiply a b = Inr (a * b)"

definition division :: "go_int \<Rightarrow> go_int \<Rightarrow> panic + go_int" where
  "division a b = go_div a b"

definition operationFunctionMap_001 :: "string \<rightharpoonup> (go_int \<Rightarrow> go_int \<Rightarrow> panic + go_int)" where
  "operationFunctionMap_001 =
     [''+'' \<mapsto> add, ''-'' \<mapsto> subtract, ''*'' \<mapsto> multiply, ''/'' \<mapsto> division]"

fun evalExpression_001 :: "Expression \<Rightarrow> panic + go_int" where
  "evalExpression_001 (TokenExpression (IntegerToken v)) = Inr (scast v)"
| "evalExpression_001 (InfixExpression lhs rhs op) =
     (case evalExpression_001 lhs of
        Inl p \<Rightarrow> Inl p
      | Inr a \<Rightarrow>
          (case evalExpression_001 rhs of
             Inl p \<Rightarrow> Inl p
           | Inr b \<Rightarrow>
               (case operationFunctionMap_001 op of
                  None \<Rightarrow> Inl (Runtime NilPointerDereference)
                | Some f \<Rightarrow> f a b)))"
| "evalExpression_001 e = Inl (Explicit ''Undesired behaviour'')"

section \<open>Successive calls of next\<close>

text \<open>What \<open>n\<close> calls of \<open>next\<close>, one after the other, deliver.\<close>

fun next_calls :: "nat \<Rightarrow> Lexer \<Rightarrow> Token option list" where
  "next_calls 0 l = []"
| "next_calls (Suc n) l = (case Lexer_next l of (t, l1) \<Rightarrow> t # next_calls n l1)"

fun next_calls_001 :: "nat \<Rightarrow> Lexer \<Rightarrow> panic + Token list" where
  "next_calls_001 0 l = Inr []"
| "next_calls_001 (Suc n) l =
     (case Lexer_next_001 l of
        Inl p \<Rightarrow> Inl p
      | Inr (t, l1) \<Rightarrow>
          (case next_calls_001 n l1 of Inl p \<Rightarrow> Inl p | Inr ts \<Rightarrow> Inr (t # ts)))"

section \<open>Notions used in the statements\<close>

text \<open>What the scanning loop appends for one byte.\<close>

definition byte_tokens :: "char \<Rightarrow> Token list" where
  "byte_tokens c =
     (if c = CHR '' '' \<or> c = CHR 0x0D \<or> c = CHR 0x09 \<or> c = CHR 0x0A then []
      else if is_digit c then [IntegerToken (of_char c - 48)]
      else if c = CHR ''+'' \<or> c = CHR ''-'' \<or> c = CHR ''*'' \<or> c = CHR ''/'' then
        [OperatorToken [c]]
      else [])"

text \<open>The tokens the tokenizer is meant to produce: a digit or one of the four operators.\<close>

fun is_tokenizer_token :: "Token \<Rightarrow> bool" where
  "is_tokenizer_token (IntegerToken v) = (0 \<le> sint v \<and> sint v \<le> 9)"
| "is_tokenizer_token (OperatorToken lit) =
     (lit = ''+'' \<or> lit = ''-'' \<or> lit = ''*'' \<or> lit = ''/'')"
| "is_tokenizer_token (PrefixToken lit) = False"

text \<open>Space, carriage return, tab and newline.\<close>

definition whitespace_rune :: "rune \<Rightarrow> bool" where
  "whitespace_rune r = (r = 0x20 \<or> r = 0x0D \<or> r = 0x09 \<or> r = 0x0A)"

text \<open>
  The evaluation of an expression performs a division whose right operand is 0: following
  the order of \<open>evalExpression\<close> (left operand, right operand, then the operation; the
  operand of a prefix \<open>+\<close> or \<open>-\<close>), such a division is reached before anything else
  panics. For main.go, and for part_001 with its evaluator.
\<close>

fun divides_by_zero :: "Expression \<Rightarrow> bool" where
  "divides_by_zero (InfixExpression lhs rhs op) =
     (divides_by_zero lhs \<or>
      (case evalExpression lhs of
         Inl p \<Rightarrow> False
       | Inr a \<Rightarrow>
           divides_by_zero rhs \<or>
           (case evalExpression rhs of
              Inl p \<Rightarrow> False
            | Inr b \<Rightarrow> op = ''/'' \<and> b = 0)))"
| "divides_by_zero (PrefixExpression op rhs) =
     ((op = ''+'' \<or> op = ''-'') \<and> divides_by_zero rhs)"
| "divides_by_zero e = False"

fun divides_by_zero_001 :: "Expression \<Rightarrow> bool" where
  "divides_by_zero_001 (InfixExpression lhs rhs op) =
     (divides_by_zero_001 lhs \<or>
      (case evalExpression_001 lhs of
         Inl p \<Rightarrow> False
       | Inr a \<Rightarrow>
           divides_by_zero_001 rhs \<or>
           (case evalExpression_001 rhs of
              Inl p \<Rightarrow> False
            | Inr b \<Rightarrow> op = ''/'' \<and> b = 0)))"
| "divides_by_zero_001 e = False"

section \<open>The tokenizer: proofs\<close>

declare Reverse_loop.simps [simp del]
declare Reverse_loop_001.simps [simp del]
declare nat_digits.simps [simp del]

lemma is_digit_iff: "is_digit c \<longleftrightarrow> 48 \<le> (of_char c :: nat) \<and> (of_char c :: nat) \<le> 57"
  by (simp add: is_digit_def less_eq_char_def)

lemma Atoi_digit:
  assumes "is_digit c"
  shows "Atoi [c] = Some (of_char c - 48)"
proof -
  have r: "48 \<le> (of_char c :: nat)" "(of_char c :: nat) \<le> 57"
    using assms by (simp_all add: is_digit_iff)
  have "c \<noteq> CHR ''-''" "c \<noteq> CHR ''+''" using r by auto
  moreover have "(of_char c :: int) = int (of_char c)" by (simp add: of_nat_of_char)
  then have "48 \<le> (of_char c :: int)" "(of_char c :: int) \<le> 57" using r by linarith+
  ultimately show ?thesis using assms by (simp add: Atoi_def)
qed

lemma tokenArray_loop_eq:
  "tokenArray_loop cs acc = Inr (acc @ concat (map byte_tokens cs))"
proof (induction cs arbitrary: acc)
  case Nil
  show ?case by simp
next
  case (Cons c cs)
  show ?case
  proof (cases "is_digit c")
    case True
    then have "Atoi [c] = Some (of_char c - 48)" by (rule Atoi_digit)
    moreover have "c \<ge> CHR ''0'' \<and> c \<le> CHR ''9''" using True by (simp add: is_digit_def)
    ultimately show ?thesis
      using True Cons by (auto simp add: byte_tokens_def of_int_of_char)
  next
    case False
    then have "\<not> (c \<ge> CHR ''0'' \<and> c \<le> CHR ''9'')" by (simp add: is_digit_def)
    then show ?thesis using False Cons by (auto simp add: byte_tokens_def)
  qed
qed

lemma unat_of_char: "unat (of_char c :: 32 word) = of_char c"
proof -
  have "(of_char c :: 32 word) = of_nat (of_char c)" by (simp add: of_nat_of_char)
  moreover have "(of_char c :: nat) < 2 ^ 32"
    by (rule less_trans [OF nat_of_char_less_256]) simp
  ultimately show ?thesis by (simp add: unat_of_nat take_bit_nat_eq_self)
qed

lemma charArray_runes: "charArray (runes s) = s"
  by (induction s) (simp_all add: charArray_def runes_def unat_of_char)

subsection \<open>Reverse of main.go reverses\<close>

lemma swap_ends:
  "(A @ (x # M @ [y]) @ B)[length A := y, length A + Suc (length M) := x]
   = (A @ [y]) @ M @ ([x] @ B)"
  by (simp add: list_update_append)

lemma Reverse_loop_append:
  "Reverse_loop (A @ M @ B) (int (length A)) (int (length A) + int (length M) - 1)
   = A @ rev M @ B"
proof (induction "length M" arbitrary: A M B rule: less_induct)
  case less
  show ?case
  proof (cases "length M \<le> 1")
    case True
    then have "rev M = M" by (cases M) auto
    with True show ?thesis by (subst Reverse_loop.simps) simp
  next
    case False
    then obtain x M1 where M1: "M = x # M1" and "M1 \<noteq> []" by (cases M) auto
    then obtain M' y where M': "M1 = M' @ [y]" by (metis rev_exhaust)
    have M: "M = x # M' @ [y]" using M1 M' by simp
    let ?c = "A @ M @ B"
    have ns: "nat (int (length A)) = length A" by simp
    have ne: "nat (int (length A) + int (length M) - 1) = length A + Suc (length M')"
      by (simp add: M)
    have s: "?c ! length A = x" by (simp add: M nth_append)
    have e: "?c ! (length A + Suc (length M')) = y"
      by (simp add: M nth_append)
    have upd: "?c[length A := y, length A + Suc (length M') := x]
               = (A @ [y]) @ M' @ ([x] @ B)"
      unfolding M by (rule swap_ends)
    have cond: "int (length A) + int (length M) - 1 - int (length A) \<ge> 1"
      using False by simp
    have "Reverse_loop ?c (int (length A)) (int (length A) + int (length M) - 1)
          = Reverse_loop ((A @ [y]) @ M' @ ([x] @ B)) (int (length A) + 1)
               (int (length A) + int (length M) - 1 - 1)"
      by (subst Reverse_loop.simps) (simp only: cond if_True ns ne s e upd)
    also have "\<dots> = Reverse_loop ((A @ [y]) @ M' @ ([x] @ B)) (int (length (A @ [y])))
               (int (length (A @ [y])) + int (length M') - 1)"
      by (simp add: M add.commute)
    also have "\<dots> = (A @ [y]) @ rev M' @ ([x] @ B)"
      by (rule less) (simp add: M)
    finally show ?thesis by (simp add: M)
  qed
qed

lemma Reverse_eq_rev: "Reverse c = rev c"
  using Reverse_loop_append [of "[]" c "[]"] by (simp add: Reverse_def)

lemma New_eq: "New input = Inr \<lparr>tokens = rev (concat (map byte_tokens (charArray input)))\<rparr>"
  by (simp add: New_def tokenArray_loop_eq Reverse_eq_rev)

subsection \<open>Reverse of part_001\<close>

lemma Reverse_loop_001_odd:
  "odd (length M) \<Longrightarrow>
   Reverse_loop_001 (A @ M @ B) (int (length A)) (int (length A) + int (length M) - 1)
   = A @ rev M @ B"
proof (induction "length M" arbitrary: A M B rule: less_induct)
  case less
  show ?case
  proof (cases "length M \<le> 1")
    case True
    then have "rev M = M" by (cases M) auto
    with True show ?thesis by (subst Reverse_loop_001.simps) simp
  next
    case False
    then obtain x M1 where M1: "M = x # M1" and "M1 \<noteq> []" by (cases M) auto
    then obtain M' y where M': "M1 = M' @ [y]" by (metis rev_exhaust)
    have M: "M = x # M' @ [y]" using M1 M' by simp
    have odd': "odd (length M')" using less.prems by (simp add: M)
    then have "M' \<noteq> []" by auto
    let ?c = "A @ M @ B"
    have ns: "nat (int (length A)) = length A" by simp
    have ne: "nat (int (length A) + int (length M) - 1) = length A + Suc (length M')"
      by (simp add: M)
    have s: "?c ! length A = x" by (simp add: M nth_append)
    have e: "?c ! (length A + Suc (length M')) = y"
      by (simp add: M nth_append)
    have upd: "?c[length A := y, length A + Suc (length M') := x]
               = (A @ [y]) @ M' @ ([x] @ B)"
      unfolding M by (rule swap_ends)
    have cond: "int (length A) + int (length M) - 1 - int (length A) > 1"
      using \<open>M' \<noteq> []\<close> by (simp add: M)
    have "Reverse_loop_001 ?c (int (length A)) (int (length A) + int (length M) - 1)
          = Reverse_loop_001 ((A @ [y]) @ M' @ ([x] @ B)) (int (length A) + 1)
               (int (length A) + int (length M) - 1 - 1)"
      by (subst Reverse_loop_001.simps) (simp only: cond if_True ns ne s e upd)
    also have "\<dots> = Reverse_loop_001 ((A @ [y]) @ M' @ ([x] @ B)) (int (length (A @ [y])))
               (int (length (A @ [y])) + int (length M') - 1)"
      by (simp add: M add.commute)
    also have "\<dots> = (A @ [y]) @ rev M' @ ([x] @ B)"
      by (rule less) (simp_all add: M odd')
    finally show ?thesis by (simp add: M)
  qed
qed

lemma Reverse_001_odd: "odd (length c) \<Longrightarrow> Reverse_001 c = rev c"
  using Reverse_loop_001_odd [of c "[]" "[]"] by (simp add: Reverse_001_def)

lemma Reverse_loop_001_set:
  "\<exists>M'. set M' = set M \<and> length M' = length M \<and>
   Reverse_loop_001 (A @ M @ B) (int (length A)) (int (length A) + int (length M) - 1)
   = A @ M' @ B"
proof (induction "length M" arbitrary: A M B rule: less_induct)
  case less
  show ?case
  proof (cases "length M \<le> 2")
    case True
    then have "Reverse_loop_001 (A @ M @ B) (int (length A)) (int (length A) + int (length M) - 1)
       = A @ M @ B" by (subst Reverse_loop_001.simps) simp
    then show ?thesis by blast
  next
    case False
    then obtain x M1 where M1: "M = x # M1" and "M1 \<noteq> []" by (cases M) fastforce+
    then obtain M' y where M': "M1 = M' @ [y]" by (metis rev_exhaust)
    have M: "M = x # M' @ [y]" using M1 M' by simp
    have "M' \<noteq> []" using False by (simp add: M)
    let ?c = "A @ M @ B"
    have ns: "nat (int (length A)) = length A" by simp
    have ne: "nat (int (length A) + int (length M) - 1) = length A + Suc (length M')"
      by (simp add: M)
    have s: "?c ! length A = x" by (simp add: M nth_append)
    have e: "?c ! (length A + Suc (length M')) = y"
      by (simp add: M nth_append)
    have upd: "?c[length A := y, length A + Suc (length M') := x]
               = (A @ [y]) @ M' @ ([x] @ B)"
      unfolding M by (rule swap_ends)
    have cond: "int (length A) + int (length M) - 1 - int (length A) > 1"
      using \<open>M' \<noteq> []\<close> by (simp add: M)
    have "Reverse_loop_001 ?c (int (length A)) (int (length A) + int (length M) - 1)
          = Reverse_loop_001 ((A @ [y]) @ M' @ ([x] @ B)) (int (length A) + 1)
               (int (length A) + int (length M) - 1 - 1)"
      by (subst Reverse_loop_001.simps) (simp only: cond if_True ns ne s e upd)
    also have "\<dots> = Reverse_loop_001 ((A @ [y]) @ M' @ ([x] @ B)) (int (length (A @ [y])))
               (int (length (A @ [y])) + int (length M') - 1)"
      by (simp add: M add.commute)
    finally have step: "Reverse_loop_001 ?c (int (length A)) (int (length A) + int (length M) - 1)
       = Reverse_loop_001 ((A @ [y]) @ M' @ ([x] @ B)) (int (length (A @ [y])))
               (int (length (A @ [y])) + int (length M') - 1)" .
    have "length M' < length M" by (simp add: M)
    from less [OF this, of "A @ [y]" "[x] @ B"]
    obtain N where N: "set N = set M'" "length N = length M'"
      "Reverse_loop_001 ((A @ [y]) @ M' @ ([x] @ B)) (int (length (A @ [y])))
               (int (length (A @ [y])) + int (length M') - 1) = (A @ [y]) @ N @ ([x] @ B)"
      by blast
    have "set (y # N @ [x]) = set M" "length (y # N @ [x]) = length M"
      using N by (auto simp: M)
    moreover have "Reverse_loop_001 ?c (int (length A)) (int (length A) + int (length M) - 1)
       = A @ (y # N @ [x]) @ B" using step N by simp
    ultimately show ?thesis by blast
  qed
qed

lemma Reverse_001_set: "set (Reverse_001 c) = set c"
  using Reverse_loop_001_set [of c "[]" "[]"] by (auto simp add: Reverse_001_def)

lemma Reverse_001_length: "length (Reverse_001 c) = length c"
  using Reverse_loop_001_set [of c "[]" "[]"] by (auto simp add: Reverse_001_def)

lemma Reverse_001_two: "Reverse_001 [a, b] = [a, b]"
  by (simp add: Reverse_001_def Reverse_loop_001.simps)

lemma New_001_eq:
  "\<exists>ts. set ts = set (concat (map byte_tokens (charArray input))) \<and>
        length ts = length (concat (map byte_tokens (charArray input))) \<and>
        New_001 input = Inr \<lparr>tokens = ts\<rparr>"
  by (simp add: New_001_def tokenArray_loop_eq Reverse_001_set Reverse_001_length)

lemma New_001_odd:
  "odd (length (concat (map byte_tokens (charArray input)))) \<Longrightarrow> New_001 input = New input"
  by (simp add: New_001_def New_def tokenArray_loop_eq Reverse_001_odd Reverse_eq_rev)


section \<open>The parser: it returns\<close>

lemma Lexer_next_Some_length:
  "Lexer_next l = (Some t, l1) \<Longrightarrow> Suc (length (tokens l1)) = length (tokens l)"
  by (auto simp: Lexer_next_def split: if_splits)

lemma snd_Lexer_next_le: "length (tokens (snd (Lexer_next l))) \<le> length (tokens l)"
  by (simp add: Lexer_next_def)

lemma Lexer_peek_Some_length:
  "Lexer_peek l = Some t \<Longrightarrow> Suc (length (tokens (snd (Lexer_next l)))) = length (tokens l)"
  by (auto simp: Lexer_peek_def Lexer_next_def split: if_splits)

lemma parse_shrinks_step:
  assumes IHp: "\<And>l bp e l'. parse n l bp = Some (Inr (e, l')) \<Longrightarrow> length (tokens l') < length (tokens l)"
      and IHl: "\<And>l bp lhs e l'. parse_loop n l bp lhs = Some (Inr (e, l')) \<Longrightarrow> length (tokens l') \<le> length (tokens l)"
      and p: "parse (Suc n) l bp = Some (Inr (e, l'))"
  shows "length (tokens l') < length (tokens l)"
  using p
  apply (simp split: prod.splits option.splits TokenType.splits sum.splits if_splits)
  apply (auto dest!: IHp IHl Lexer_next_Some_length)
  using snd_Lexer_next_le apply (metis (no_types, lifting) le_trans less_imp_le_nat less_Suc_eq_le not_less_eq)
  done


lemma parse_loop_shrinks_step:
  assumes IHp: "\<And>l bp e l'. parse n l bp = Some (Inr (e, l')) \<Longrightarrow> length (tokens l') < length (tokens l)"
      and IHl: "\<And>l bp lhs e l'. parse_loop n l bp lhs = Some (Inr (e, l')) \<Longrightarrow> length (tokens l') \<le> length (tokens l)"
      and p: "parse_loop (Suc n) l bp lhs = Some (Inr (e, l'))"
  shows "length (tokens l') \<le> length (tokens l)"
  using p
  apply (simp split: option.splits Token.splits sum.splits if_splits prod.splits)
  apply (auto dest!: IHp IHl Lexer_peek_Some_length)
  done

lemma parse_shrinks_both:
  "(\<forall>l bp e l'. parse n l bp = Some (Inr (e, l')) \<longrightarrow> length (tokens l') < length (tokens l)) \<and>
   (\<forall>l bp lhs e l'. parse_loop n l bp lhs = Some (Inr (e, l')) \<longrightarrow> length (tokens l') \<le> length (tokens l))"
proof (induction n)
  case 0
  show ?case by simp
next
  case (Suc n)
  show ?case
  proof (intro conjI allI impI)
    fix l bp e l'
    assume "parse (Suc n) l bp = Some (Inr (e, l'))"
    then show "length (tokens l') < length (tokens l)"
      using Suc by (intro parse_shrinks_step [of n l bp e l']) blast+
  next
    fix l bp lhs e l'
    assume "parse_loop (Suc n) l bp lhs = Some (Inr (e, l'))"
    then show "length (tokens l') \<le> length (tokens l)"
      using Suc by (intro parse_loop_shrinks_step [of n l bp lhs e l']) blast+
  qed
qed

lemma parse_shrinks:
  "parse n l bp = Some (Inr (e, l')) \<Longrightarrow> length (tokens l') < length (tokens l)"
  using parse_shrinks_both [of n] by blast

lemma parse_loop_shrinks:
  "parse_loop n l bp lhs = Some (Inr (e, l')) \<Longrightarrow> length (tokens l') \<le> length (tokens l)"
  using parse_shrinks_both [of n] by blast

lemma parse_returns_step:
  assumes IHp: "\<And>l bp. length (tokens l) < n \<Longrightarrow> parse n l bp \<noteq> None"
      and IHl: "\<And>l bp lhs. length (tokens l) < n \<Longrightarrow> parse_loop n l bp lhs \<noteq> None"
      and len: "length (tokens l) < Suc n"
  shows "parse (Suc n) l bp \<noteq> None"
proof (cases "Lexer_next l")
  case (Pair t l1)
  show ?thesis
  proof (cases t)
    case None
    with Pair show ?thesis by simp
  next
    case (Some lhsExpr)
    have l1: "length (tokens l1) < n"
      using Lexer_next_Some_length [of l lhsExpr l1] Pair Some len by simp
    have l1': "length (tokens (snd (Lexer_next l1))) < n"
      using snd_Lexer_next_le [of l1] l1 by simp
    define lit where "lit = OperatorToken_literal lhsExpr"
    define pre where "pre =
      (if lit = ''(''
       then (case parse n (snd (Lexer_next l1)) 0 of
               None \<Rightarrow> None
             | Some (Inl p) \<Rightarrow> Some (Inl p)
             | Some (Inr (expr, l2)) \<Rightarrow>
                 (case Lexer_peek l2 of
                    None \<Rightarrow> Some (Inl (Runtime NilPointerDereference))
                  | Some t \<Rightarrow>
                      if \<not> (getExpressionValue t = '')'')
                      then Some (Inl (Explicit ''Expected right paren''))
                      else Some (Inr l2)))
       else Some (Inr l1))"
    define rest where "rest = (\<lambda>l3.
      (case map_index prefixBindingPowerMap lit 1 of
         Inl p \<Rightarrow> Some (Inl p)
       | Inr r_bp \<Rightarrow>
           (case parse n l3 r_bp of
              None \<Rightarrow> None
            | Some (Inl p) \<Rightarrow> Some (Inl p)
            | Some (Inr (rhs, l4)) \<Rightarrow>
                parse_loop n l4 bp (PrefixExpression lit rhs))))"
    have pre_Some: "pre \<noteq> None"
    proof (cases "lit = ''(''")
      case True
      obtain r where r: "parse n (snd (Lexer_next l1)) 0 = Some r"
        using IHp [OF l1'] by blast
      show ?thesis unfolding pre_def using True r
        by (simp split: sum.splits prod.splits option.splits)
    next
      case False
      then show ?thesis by (simp add: pre_def)
    qed
    have pre_len: "length (tokens l3) < n" if "pre = Some (Inr l3)" for l3
    proof (cases "lit = ''(''")
      case True
      from that True obtain expr where "parse n (snd (Lexer_next l1)) 0 = Some (Inr (expr, l3))"
        unfolding pre_def by (auto split: sum.splits prod.splits option.splits if_splits)
      from parse_shrinks [OF this] l1' show ?thesis by simp
    next
      case False
      with that l1 show ?thesis by (simp add: pre_def)
    qed
    have rest_Some: "rest l3 \<noteq> None" if l3: "length (tokens l3) < n" for l3
    proof (cases "map_index prefixBindingPowerMap lit 1")
      case (Inl p)
      then show ?thesis by (simp add: rest_def)
    next
      case (Inr r_bp)
      obtain r where r: "parse n l3 r_bp = Some r" using IHp [OF l3] by blast
      show ?thesis
      proof (cases r)
        case (Inl p)
        with Inr r show ?thesis by (simp add: rest_def)
      next
        case (Inr res)
        obtain rhs l4 where res: "res = (rhs, l4)" by (cases res)
        have "length (tokens l4) < n"
          using parse_shrinks [of n l3 r_bp rhs l4] r Inr res l3 by simp
        from IHl [OF this] show ?thesis
          using \<open>map_index prefixBindingPowerMap lit 1 = Inr r_bp\<close> r Inr res
          by (simp add: rest_def)
      qed
    qed
    have unfold: "getTokenType lhsExpr = Operand \<Longrightarrow> parse (Suc n) l bp =
      (case pre of None \<Rightarrow> None | Some (Inl p) \<Rightarrow> Some (Inl p) | Some (Inr l3) \<Rightarrow> rest l3)"
      unfolding pre_def rest_def lit_def using Pair Some by simp
    show ?thesis
    proof (cases "getTokenType lhsExpr")
      case Integer
      with Pair Some IHl [OF l1] show ?thesis by simp
    next
      case Prefix
      with Pair Some IHl [OF l1] show ?thesis by simp
    next
      case Operand
      obtain r where r: "pre = Some r" using pre_Some by blast
      show ?thesis
      proof (cases r)
        case (Inl p)
        with r show ?thesis unfolding unfold [OF Operand] by simp
      next
        case (Inr l3)
        with r pre_len have "length (tokens l3) < n" by simp
        from rest_Some [OF this] r Inr show ?thesis unfolding unfold [OF Operand] by simp
      qed
    qed
  qed
qed

lemma parse_loop_returns_step:
  assumes IHp: "\<And>l bp. length (tokens l) < n \<Longrightarrow> parse n l bp \<noteq> None"
      and IHl: "\<And>l bp lhs. length (tokens l) < n \<Longrightarrow> parse_loop n l bp lhs \<noteq> None"
      and len: "length (tokens l) < Suc n"
  shows "parse_loop (Suc n) l bp lhs \<noteq> None"
proof (cases "Lexer_peek l")
  case None
  then show ?thesis by simp
next
  case (Some t)
  have l1: "length (tokens (snd (Lexer_next l))) < n"
    using Lexer_peek_Some_length [OF Some] len by simp
  have rec: "(case parse n (snd (Lexer_next l)) r_bp of
               None \<Rightarrow> None
             | Some (Inl p) \<Rightarrow> Some (Inl p)
             | Some (Inr (rhs, l2)) \<Rightarrow> parse_loop n l2 bp (InfixExpression lhs rhs lit)) \<noteq> None"
    for r_bp lit
  proof -
    obtain r where r: "parse n (snd (Lexer_next l)) r_bp = Some r" using IHp [OF l1] by blast
    show ?thesis
    proof (cases r)
      case (Inl p)
      with r show ?thesis by simp
    next
      case (Inr res)
      obtain rhs l2 where res: "res = (rhs, l2)" by (cases res)
      have "length (tokens l2) < n"
        using parse_shrinks [of n "snd (Lexer_next l)" r_bp rhs l2] r Inr res l1 by simp
      from IHl [OF this] show ?thesis using r Inr res by simp
    qed
  qed
  show ?thesis
  proof (cases t)
    case (OperatorToken lit)
    show ?thesis
      using Some OperatorToken rec
      by (simp split: sum.splits)
  qed (use Some in simp_all)
qed

lemma parse_returns_both:
  "(\<forall>l bp. length (tokens l) < n \<longrightarrow> parse n l bp \<noteq> None) \<and>
   (\<forall>l bp lhs. length (tokens l) < n \<longrightarrow> parse_loop n l bp lhs \<noteq> None)"
proof (induction n)
  case 0
  show ?case by simp
next
  case (Suc n)
  show ?case
  proof (intro conjI allI impI)
    fix l :: Lexer and bp :: int
    assume "length (tokens l) < Suc n"
    then show "parse (Suc n) l bp \<noteq> None"
      using Suc by (intro parse_returns_step) blast+
  next
    fix l :: Lexer and bp :: int and lhs :: Expression
    assume "length (tokens l) < Suc n"
    then show "parse_loop (Suc n) l bp lhs \<noteq> None"
      using Suc by (intro parse_loop_returns_step) blast+
  qed
qed


subsection \<open>The parser of part_001\<close>

lemma Lexer_next_001_length:
  "Lexer_next_001 l = Inr (t, l1) \<Longrightarrow> Suc (length (tokens l1)) = length (tokens l)"
  by (auto simp: Lexer_next_001_def split: if_splits)

lemma parse_001_shrinks_step:
  assumes IHp: "\<And>l bp e l'. parse_001 n l bp = Some (Inr (e, l')) \<Longrightarrow> length (tokens l') < length (tokens l)"
      and IHl: "\<And>l bp lhs e l'. parse_loop_001 n l bp lhs = Some (Inr (e, l')) \<Longrightarrow> length (tokens l') \<le> length (tokens l)"
      and p: "parse_001 (Suc n) l bp = Some (Inr (e, l'))"
  shows "length (tokens l') < length (tokens l)"
  using p
  apply (simp split: prod.splits sum.splits Token.splits)
  apply (auto dest!: IHl Lexer_next_001_length)
  done

lemma parse_loop_001_shrinks_step:
  assumes IHp: "\<And>l bp e l'. parse_001 n l bp = Some (Inr (e, l')) \<Longrightarrow> length (tokens l') < length (tokens l)"
      and IHl: "\<And>l bp lhs e l'. parse_loop_001 n l bp lhs = Some (Inr (e, l')) \<Longrightarrow> length (tokens l') \<le> length (tokens l)"
      and p: "parse_loop_001 (Suc n) l bp lhs = Some (Inr (e, l'))"
  shows "length (tokens l') \<le> length (tokens l)"
  using p
  apply (simp split: option.splits Token.splits sum.splits if_splits prod.splits)
  apply (auto dest!: IHp IHl Lexer_next_001_length)
  done

lemma parse_001_shrinks_both:
  "(\<forall>l bp e l'. parse_001 n l bp = Some (Inr (e, l')) \<longrightarrow> length (tokens l') < length (tokens l)) \<and>
   (\<forall>l bp lhs e l'. parse_loop_001 n l bp lhs = Some (Inr (e, l')) \<longrightarrow> length (tokens l') \<le> length (tokens l))"
proof (induction n)
  case 0
  show ?case by simp
next
  case (Suc n)
  show ?case
  proof (intro conjI allI impI)
    fix l bp e l'
    assume "parse_001 (Suc n) l bp = Some (Inr (e, l'))"
    then show "length (tokens l') < length (tokens l)"
      using Suc by (intro parse_001_shrinks_step [of n l bp e l']) blast+
  next
    fix l bp lhs e l'
    assume "parse_loop_001 (Suc n) l bp lhs = Some (Inr (e, l'))"
    then show "length (tokens l') \<le> length (tokens l)"
      using Suc by (intro parse_loop_001_shrinks_step [of n l bp lhs e l']) blast+
  qed
qed

lemma parse_001_shrinks:
  "parse_001 n l bp = Some (Inr (e, l')) \<Longrightarrow> length (tokens l') < length (tokens l)"
  using parse_001_shrinks_both [of n] by blast

lemma parse_001_returns_step:
  assumes IHl: "\<And>l bp lhs. length (tokens l) < n \<Longrightarrow> parse_loop_001 n l bp lhs \<noteq> None"
      and len: "length (tokens l) < Suc n"
  shows "parse_001 (Suc n) l bp \<noteq> None"
proof (cases "Lexer_next_001 l")
  case (Inl p)
  then show ?thesis by simp
next
  case (Inr res)
  obtain t l1 where res: "res = (t, l1)" by (cases res)
  have l1: "length (tokens l1) < n"
    using Lexer_next_001_length [of l t l1] Inr res len by simp
  show ?thesis
    using Inr res IHl [OF l1] by (cases t) simp_all
qed

lemma parse_loop_001_returns_step:
  assumes IHp: "\<And>l bp. length (tokens l) < n \<Longrightarrow> parse_001 n l bp \<noteq> None"
      and IHl: "\<And>l bp lhs. length (tokens l) < n \<Longrightarrow> parse_loop_001 n l bp lhs \<noteq> None"
      and len: "length (tokens l) < Suc n"
  shows "parse_loop_001 (Suc n) l bp lhs \<noteq> None"
proof (cases "Lexer_peek l")
  case None
  then show ?thesis by simp
next
  case (Some t)
  have rec: "(case Lexer_next_001 l of
                Inl p \<Rightarrow> Some (Inl p)
              | Inr (t, l1) \<Rightarrow>
               (case parse_001 n l1 r_bp of
                  None \<Rightarrow> None
                | Some (Inl p) \<Rightarrow> Some (Inl p)
                | Some (Inr (rhs, l2)) \<Rightarrow> parse_loop_001 n l2 bp (InfixExpression lhs rhs lit))) \<noteq> None"
    for r_bp lit
  proof (cases "Lexer_next_001 l")
    case (Inl p)
    then show ?thesis by simp
  next
    case (Inr res1)
    obtain t1 l1 where res1: "res1 = (t1, l1)" by (cases res1)
    have l1: "length (tokens l1) < n"
      using Lexer_next_001_length [of l t1 l1] Inr res1 len by simp
    obtain r where r: "parse_001 n l1 r_bp = Some r" using IHp [OF l1] by blast
    show ?thesis
    proof (cases r)
      case (Inl p)
      with r \<open>Lexer_next_001 l = Inr res1\<close> res1 show ?thesis by simp
    next
      case (Inr res)
      obtain rhs l2 where res: "res = (rhs, l2)" by (cases res)
      have "length (tokens l2) < n"
        using parse_001_shrinks [of n l1 r_bp rhs l2] r Inr res l1 by simp
      from IHl [OF this] show ?thesis
        using r Inr res \<open>Lexer_next_001 l = Inr res1\<close> res1 by simp
    qed
  qed
  show ?thesis
  proof (cases t)
    case (OperatorToken lit)
    show ?thesis
      using Some OperatorToken rec
      by (simp split: sum.splits)
  qed (use Some in simp_all)
qed

lemma parse_001_returns_both:
  "(\<forall>l bp. length (tokens l) < n \<longrightarrow> parse_001 n l bp \<noteq> None) \<and>
   (\<forall>l bp lhs. length (tokens l) < n \<longrightarrow> parse_loop_001 n l bp lhs \<noteq> None)"
proof (induction n)
  case 0
  show ?case by simp
next
  case (Suc n)
  show ?case
  proof (intro conjI allI impI)
    fix l :: Lexer and bp :: int
    assume "length (tokens l) < Suc n"
    then show "parse_001 (Suc n) l bp \<noteq> None"
      using Suc by (intro parse_001_returns_step) blast+
  next
    fix l :: Lexer and bp :: int and lhs :: Expression
    assume "length (tokens l) < Suc n"
    then show "parse_loop_001 (Suc n) l bp lhs \<noteq> None"
      using Suc by (intro parse_loop_001_returns_step) blast+
  qed
qed

lemma main_returns: "main a \<noteq> None"
proof -
  obtain lexer where l: "New a = Inr lexer" by (simp add: New_eq)
  have "parse (Suc (length (tokens lexer))) lexer 0 \<noteq> None"
    using parse_returns_both [of "Suc (length (tokens lexer))"] by blast
  then show ?thesis
    unfolding main_def using l by (auto split: sum.splits prod.splits)
qed

section \<open>The cursor and the tokens: proofs\<close>

lemma next_calls_rev:
  "next_calls (length ts) \<lparr>tokens = rest @ rev ts\<rparr> = map Some ts"
  by (induction ts) (simp_all add: Lexer_next_def butlast_append)

lemma Lexer_next_empty: "tokens l = [] \<Longrightarrow> Lexer_next l = (None, l)"
  by (simp add: Lexer_next_def)

lemma whitespace_byte: "whitespace_rune r \<Longrightarrow> byte_tokens (char_of (unat r)) = []"
  unfolding whitespace_rune_def
  by (elim disjE) (simp_all add: byte_tokens_def char_of_eq_iff is_digit_iff)

lemma whitespace_bytes:
  "list_all whitespace_rune input \<Longrightarrow> concat (map byte_tokens (charArray input)) = []"
  by (induction input) (simp_all add: charArray_def whitespace_byte)

lemma dotless_i2: "charArray [0x131] = ''1''"
  by (simp add: charArray_def char_of_eq_iff)

lemma dotless_i: "New [0x131] = Inr \<lparr>tokens = [IntegerToken 1]\<rparr>"
  by (simp add: New_eq dotless_i2 byte_tokens_def is_digit_def)

lemma digit_word_sint:
  assumes "k \<le> (9::nat)"
  shows "0 \<le> sint (of_nat k :: 32 word) \<and> sint (of_nat k :: 32 word) \<le> 9"
proof -
  from assms have "k = 0 \<or> k = 1 \<or> k = 2 \<or> k = 3 \<or> k = 4 \<or> k = 5 \<or> k = 6 \<or> k = 7 \<or> k = 8 \<or> k = 9"
    by arith
  then show ?thesis by (elim disjE) simp_all
qed

lemma byte_tokens_ok: "list_all is_tokenizer_token (byte_tokens c)"
proof (cases "is_digit c")
  case True
  then have r: "48 \<le> (of_char c :: nat)" "(of_char c :: nat) \<le> 57"
    by (simp_all add: is_digit_iff)
  define k where "k = (of_char c :: nat) - 48"
  have k: "k \<le> 9" "(of_char c :: nat) = 48 + k" using r by (simp_all add: k_def)
  have "(of_char c :: 32 word) = of_nat (of_char c)" by (simp add: of_nat_of_char)
  then have "(of_char c :: 32 word) - 48 = of_nat k" using k by simp
  then show ?thesis using True digit_word_sint [OF k(1)] by (simp add: byte_tokens_def)
next
  case False
  then show ?thesis by (auto simp add: byte_tokens_def)
qed

section \<open>The claims\<close>

lemmas cursor_defs = Lexer_next_def Lexer_peek_def Lexer_next_001_def map_index_def
  operatorBindingPowerMap_def prefixBindingPowerMap_def

subsection \<open>C1: left associativity\<close>

lemma tokens_2m1m1:
  "New (runes ''2-1-1'') = Inr \<lparr>tokens = [IntegerToken 1, OperatorToken ''-'', IntegerToken 1, OperatorToken ''-'', IntegerToken 2]\<rparr>"
  by (simp add: New_eq charArray_runes byte_tokens_def is_digit_def)

lemma tokens_001_2m1m1:
  "New_001 (runes ''2-1-1'') = Inr \<lparr>tokens = [IntegerToken 1, OperatorToken ''-'', IntegerToken 1, OperatorToken ''-'', IntegerToken 2]\<rparr>"
  by (simp add: New_001_def tokenArray_loop_eq charArray_runes byte_tokens_def is_digit_def
        Reverse_001_odd)

lemma parse_2m1m1:
  "parse 6 \<lparr>tokens = [IntegerToken 1, OperatorToken ''-'', IntegerToken 1, OperatorToken ''-'', IntegerToken 2]\<rparr> 0
   = Some (Inr (InfixExpression
                  (InfixExpression (TokenExpression (IntegerToken 2)) (TokenExpression (IntegerToken 1)) ''-'')
                  (TokenExpression (IntegerToken 1)) ''-'', \<lparr>tokens = []\<rparr>))"
  by (simp add: eval_nat_numeral cursor_defs)

lemma parse_001_2m1m1:
  "parse_001 6 \<lparr>tokens = [IntegerToken 1, OperatorToken ''-'', IntegerToken 1, OperatorToken ''-'', IntegerToken 2]\<rparr> 0
   = Some (Inr (InfixExpression
                  (InfixExpression (TokenExpression (IntegerToken 2)) (TokenExpression (IntegerToken 1)) ''-'')
                  (TokenExpression (IntegerToken 1)) ''-'', \<lparr>tokens = []\<rparr>))"
  by (simp add: eval_nat_numeral cursor_defs)

lemma eval_2m1m1:
  "evalExpression (InfixExpression
                  (InfixExpression (TokenExpression (IntegerToken 2)) (TokenExpression (IntegerToken 1)) ''-'')
                  (TokenExpression (IntegerToken 1)) ''-'') = Inr 0"
  by (simp add: operationFunctionMap_def)

lemma eval_001_2m1m1:
  "evalExpression_001 (InfixExpression
                  (InfixExpression (TokenExpression (IntegerToken 2)) (TokenExpression (IntegerToken 1)) ''-'')
                  (TokenExpression (IntegerToken 1)) ''-'') = Inr 0"
  by (simp add: operationFunctionMap_001_def subtract_def)

lemma main_2m1m1: "main (runes ''2-1-1'') = Some (Inr 0)"
  by (simp add: main_def tokens_2m1m1 cursor_defs operationFunctionMap_def)

text \<open>
  Claim C1. For the input \<open>2-1-1\<close> the tokenizer leaves the tokens on the stack with the
  first one on top, \<open>parse\<close> builds the tree \<open>(2 - 1) - 1\<close> and consumes every token,
  and the tree evaluates to 0; \<open>main\<close> prints 0. The same holds in the variant part_001.
\<close>

theorem left_associative_2m1m1:
  "New (runes ''2-1-1'') = Inr \<lparr>tokens = [IntegerToken 1, OperatorToken ''-'', IntegerToken 1, OperatorToken ''-'', IntegerToken 2]\<rparr> \<and>
   parse 6 \<lparr>tokens = [IntegerToken 1, OperatorToken ''-'', IntegerToken 1, OperatorToken ''-'', IntegerToken 2]\<rparr> 0
   = Some (Inr (InfixExpression
                  (InfixExpression (TokenExpression (IntegerToken 2)) (TokenExpression (IntegerToken 1)) ''-'')
                  (TokenExpression (IntegerToken 1)) ''-'', \<lparr>tokens = []\<rparr>)) \<and>
   evalExpression (InfixExpression
                  (InfixExpression (TokenExpression (IntegerToken 2)) (TokenExpression (IntegerToken 1)) ''-'')
                  (TokenExpression (IntegerToken 1)) ''-'') = Inr 0 \<and>
   main (runes ''2-1-1'') = Some (Inr 0) \<and>
   New_001 (runes ''2-1-1'') = Inr \<lparr>tokens = [IntegerToken 1, OperatorToken ''-'', IntegerToken 1, OperatorToken ''-'', IntegerToken 2]\<rparr> \<and>
   parse_001 6 \<lparr>tokens = [IntegerToken 1, OperatorToken ''-'', IntegerToken 1, OperatorToken ''-'', IntegerToken 2]\<rparr> 0
   = Some (Inr (InfixExpression
                  (InfixExpression (TokenExpression (IntegerToken 2)) (TokenExpression (IntegerToken 1)) ''-'')
                  (TokenExpression (IntegerToken 1)) ''-'', \<lparr>tokens = []\<rparr>)) \<and>
   evalExpression_001 (InfixExpression
                  (InfixExpression (TokenExpression (IntegerToken 2)) (TokenExpression (IntegerToken 1)) ''-'')
                  (TokenExpression (IntegerToken 1)) ''-'') = Inr 0"
  by (intro conjI tokens_2m1m1 parse_2m1m1 eval_2m1m1 main_2m1m1 tokens_001_2m1m1
        parse_001_2m1m1 eval_001_2m1m1)

subsection \<open>C2: precedence\<close>

lemma tokens_1p2t3:
  "New (runes ''1+2*3'') = Inr \<lparr>tokens = [IntegerToken 3, OperatorToken ''*'', IntegerToken 2, OperatorToken ''+'', IntegerToken 1]\<rparr>"
  by (simp add: New_eq charArray_runes byte_tokens_def is_digit_def)

lemma tokens_2t3p1:
  "New (runes ''2*3+1'') = Inr \<lparr>tokens = [IntegerToken 1, OperatorToken ''+'', IntegerToken 3, OperatorToken ''*'', IntegerToken 2]\<rparr>"
  by (simp add: New_eq charArray_runes byte_tokens_def is_digit_def)

lemma parse_1p2t3:
  "parse 6 \<lparr>tokens = [IntegerToken 3, OperatorToken ''*'', IntegerToken 2, OperatorToken ''+'', IntegerToken 1]\<rparr> 0
   = Some (Inr (InfixExpression (TokenExpression (IntegerToken 1))
                  (InfixExpression (TokenExpression (IntegerToken 2)) (TokenExpression (IntegerToken 3)) ''*'')
                  ''+'', \<lparr>tokens = []\<rparr>))"
  by (simp add: eval_nat_numeral cursor_defs)

lemma parse_2t3p1:
  "parse 6 \<lparr>tokens = [IntegerToken 1, OperatorToken ''+'', IntegerToken 3, OperatorToken ''*'', IntegerToken 2]\<rparr> 0
   = Some (Inr (InfixExpression
                  (InfixExpression (TokenExpression (IntegerToken 2)) (TokenExpression (IntegerToken 3)) ''*'')
                  (TokenExpression (IntegerToken 1)) ''+'', \<lparr>tokens = []\<rparr>))"
  by (simp add: eval_nat_numeral cursor_defs)

lemma main_1p2t3: "main (runes ''1+2*3'') = Some (Inr 7)"
  by (simp add: main_def tokens_1p2t3 cursor_defs operationFunctionMap_def)

lemma main_2t3p1: "main (runes ''2*3+1'') = Some (Inr 7)"
  by (simp add: main_def tokens_2t3p1 cursor_defs operationFunctionMap_def)

lemma binding_powers:
  "map_index operatorBindingPowerMap ''+'' 0 = Inr 1 \<and> map_index operatorBindingPowerMap ''+'' 1 = Inr 2 \<and>
   map_index operatorBindingPowerMap ''-'' 0 = Inr 1 \<and> map_index operatorBindingPowerMap ''-'' 1 = Inr 2 \<and>
   map_index operatorBindingPowerMap ''*'' 0 = Inr 3 \<and> map_index operatorBindingPowerMap ''*'' 1 = Inr 4 \<and>
   map_index operatorBindingPowerMap ''/'' 0 = Inr 3 \<and> map_index operatorBindingPowerMap ''/'' 1 = Inr 4 \<and>
   map_index prefixBindingPowerMap ''+'' 1 = Inr 5 \<and> map_index prefixBindingPowerMap ''-'' 1 = Inr 5"
  by (simp add: cursor_defs)

text \<open>
  Claim C2. The inputs \<open>1+2*3\<close> and \<open>2*3+1\<close> both evaluate to 7: \<open>*\<close> has the binding
  powers (3, 4), \<open>+\<close> has (1, 2), and the product is a subtree of the sum on whichever
  side of \<open>+\<close> it stands.
\<close>

theorem precedence_mul_over_add:
  "main (runes ''1+2*3'') = Some (Inr 7) \<and>
   main (runes ''2*3+1'') = Some (Inr 7) \<and>
   parse 6 \<lparr>tokens = [IntegerToken 3, OperatorToken ''*'', IntegerToken 2, OperatorToken ''+'', IntegerToken 1]\<rparr> 0
   = Some (Inr (InfixExpression (TokenExpression (IntegerToken 1))
                  (InfixExpression (TokenExpression (IntegerToken 2)) (TokenExpression (IntegerToken 3)) ''*'')
                  ''+'', \<lparr>tokens = []\<rparr>)) \<and>
   parse 6 \<lparr>tokens = [IntegerToken 1, OperatorToken ''+'', IntegerToken 3, OperatorToken ''*'', IntegerToken 2]\<rparr> 0
   = Some (Inr (InfixExpression
                  (InfixExpression (TokenExpression (IntegerToken 2)) (TokenExpression (IntegerToken 3)) ''*'')
                  (TokenExpression (IntegerToken 1)) ''+'', \<lparr>tokens = []\<rparr>)) \<and>
   map_index operatorBindingPowerMap ''*'' 0 = Inr 3 \<and>
   map_index operatorBindingPowerMap ''*'' 1 = Inr 4 \<and>
   map_index operatorBindingPowerMap ''+'' 0 = Inr 1 \<and>
   map_index operatorBindingPowerMap ''+'' 1 = Inr 2"
  using binding_powers
  by (intro conjI main_1p2t3 main_2t3p1 parse_1p2t3 parse_2t3p1) simp_all

subsection \<open>C3: division by zero\<close>

lemma op_result:
  "operationFunctionMap op = Some f \<Longrightarrow>
   f a b = Inl p \<longleftrightarrow> (op = ''/'' \<and> b = 0 \<and> p = Runtime IntegerDivideByZero)"
  by (auto simp add: operationFunctionMap_def go_div_def split: if_splits)

lemma op_result_001:
  "operationFunctionMap_001 op = Some f \<Longrightarrow>
   f a b = Inl p \<longleftrightarrow> (op = ''/'' \<and> b = 0 \<and> p = Runtime IntegerDivideByZero)"
  by (auto simp add: operationFunctionMap_001_def add_def subtract_def multiply_def
        division_def go_div_def split: if_splits)

lemma op_div: "operationFunctionMap ''/'' = Some go_div"
  by (simp add: operationFunctionMap_def)

lemma eval_divides:
  "evalExpression e = Inl (Runtime IntegerDivideByZero) \<longleftrightarrow> divides_by_zero e"
proof (induction e)
  case NilExpression
  show ?case by simp
next
  case (TokenExpression t)
  show ?case by (cases t) simp_all
next
  case (PrefixExpression op rhs)
  then show ?case by (auto split: sum.splits)
next
  case (InfixExpression lhs rhs op)
  show ?case
  proof (cases "evalExpression lhs")
    case (Inl p)
    with InfixExpression show ?thesis by auto
  next
    case a: (Inr a)
    with InfixExpression have nl: "\<not> divides_by_zero lhs" by auto
    show ?thesis
    proof (cases "evalExpression rhs")
      case (Inl p)
      with a nl InfixExpression show ?thesis by auto
    next
      case b: (Inr b)
      with InfixExpression have nr: "\<not> divides_by_zero rhs" by auto
      show ?thesis
      proof (cases "operationFunctionMap op")
        case None
        then have "op \<noteq> ''/''" using op_div by auto
        with None a b nl nr show ?thesis by simp
      next
        case (Some f)
        from op_result [OF Some, of a b "Runtime IntegerDivideByZero"]
        show ?thesis using Some a b nl nr by simp
      qed
    qed
  qed
qed


lemma op_div_001: "operationFunctionMap_001 ''/'' = Some division"
  by (simp add: operationFunctionMap_001_def)

lemma eval_001_divides:
  "evalExpression_001 e = Inl (Runtime IntegerDivideByZero) \<longleftrightarrow> divides_by_zero_001 e"
proof (induction e)
  case NilExpression
  show ?case by simp
next
  case (TokenExpression t)
  show ?case by (cases t) simp_all
next
  case (PrefixExpression op rhs)
  show ?case by simp
next
  case (InfixExpression lhs rhs op)
  show ?case
  proof (cases "evalExpression_001 lhs")
    case (Inl p)
    with InfixExpression show ?thesis by auto
  next
    case a: (Inr a)
    with InfixExpression have nl: "\<not> divides_by_zero_001 lhs" by auto
    show ?thesis
    proof (cases "evalExpression_001 rhs")
      case (Inl p)
      with a nl InfixExpression show ?thesis by auto
    next
      case b: (Inr b)
      with InfixExpression have nr: "\<not> divides_by_zero_001 rhs" by auto
      show ?thesis
      proof (cases "operationFunctionMap_001 op")
        case None
        then have "op \<noteq> ''/''" using op_div_001 by auto
        with None a b nl nr show ?thesis by simp
      next
        case (Some f)
        from op_result_001 [OF Some, of a b "Runtime IntegerDivideByZero"]
        show ?thesis using Some a b nl nr by simp
      qed
    qed
  qed
qed

lemma main_divides:
  assumes "New a = Inr lexer"
      and "parse (Suc (length (tokens lexer))) lexer 0 = Some (Inr (parsed, l))"
      and "divides_by_zero parsed"
  shows "main a = Some (Inl (Runtime IntegerDivideByZero))"
  using assms eval_divides [of parsed] by (simp add: main_def)

text \<open>
  Claim C3, as stated, fails: on \<open>5/0\<close> no error value is produced. The division raises the
  runtime panic of integer division by zero, nothing recovers it, and \<open>main\<close> ends with it.
\<close>

theorem division_by_zero_crash:
  "main (runes ''5/0'') = Some (Inl (Runtime IntegerDivideByZero))"
  by (simp add: main_def New_eq charArray_runes byte_tokens_def is_digit_def cursor_defs
        operationFunctionMap_def go_div_def)

text \<open>
  Claim C3, amended. For every expression, the evaluators of main.go and of part_001 end in
  the runtime panic of integer division by zero exactly when the evaluation performs a
  division whose right operand is 0, wherever in the tree that division stands: the panic
  passes through every enclosing node. No value is returned and nothing recovers the panic:
  for every input whose parse yields such a tree, \<open>main\<close> ends with that panic.
\<close>

theorem division_by_zero_runtime_panic:
  "(divides_by_zero e \<longleftrightarrow> evalExpression e = Inl (Runtime IntegerDivideByZero)) \<and>
   (divides_by_zero_001 e \<longleftrightarrow> evalExpression_001 e = Inl (Runtime IntegerDivideByZero)) \<and>
   (New a = Inr lexer \<and>
    parse (Suc (length (tokens lexer))) lexer 0 = Some (Inr (parsed, l)) \<and>
    divides_by_zero parsed \<longrightarrow>
      main a = Some (Inl (Runtime IntegerDivideByZero)))"
  using eval_divides [of e] eval_001_divides [of e] main_divides [of a lexer parsed l]
  by blast

text \<open>Claim C3, amended, at the input \<open>1+5/0\<close>, where the division is below the root.\<close>

theorem division_by_zero_runtime_panic_witness:
  "divides_by_zero
     (InfixExpression (TokenExpression (IntegerToken 1))
        (InfixExpression (TokenExpression (IntegerToken 5))
           (TokenExpression (IntegerToken 0)) ''/'') ''+'') \<and>
   divides_by_zero_001
     (InfixExpression (TokenExpression (IntegerToken 1))
        (InfixExpression (TokenExpression (IntegerToken 5))
           (TokenExpression (IntegerToken 0)) ''/'') ''+'') \<and>
   New (runes ''1+5/0'')
     = Inr \<lparr>tokens = [IntegerToken 0, OperatorToken ''/'', IntegerToken 5,
                      OperatorToken ''+'', IntegerToken 1]\<rparr> \<and>
   parse 6 \<lparr>tokens = [IntegerToken 0, OperatorToken ''/'', IntegerToken 5,
                      OperatorToken ''+'', IntegerToken 1]\<rparr> 0
     = Some (Inr (InfixExpression (TokenExpression (IntegerToken 1))
                    (InfixExpression (TokenExpression (IntegerToken 5))
                       (TokenExpression (IntegerToken 0)) ''/'') ''+'',
                  \<lparr>tokens = []\<rparr>)) \<and>
   evalExpression
     (InfixExpression (TokenExpression (IntegerToken 1))
        (InfixExpression (TokenExpression (IntegerToken 5))
           (TokenExpression (IntegerToken 0)) ''/'') ''+'')
     = Inl (Runtime IntegerDivideByZero) \<and>
   evalExpression_001
     (InfixExpression (TokenExpression (IntegerToken 1))
        (InfixExpression (TokenExpression (IntegerToken 5))
           (TokenExpression (IntegerToken 0)) ''/'') ''+'')
     = Inl (Runtime IntegerDivideByZero) \<and>
   main (runes ''1+5/0'') = Some (Inl (Runtime IntegerDivideByZero))"
proof -
  let ?T = "InfixExpression (TokenExpression (IntegerToken 1))
        (InfixExpression (TokenExpression (IntegerToken 5))
           (TokenExpression (IntegerToken 0)) ''/'') ''+''"
  let ?L = "\<lparr>tokens = [IntegerToken 0, OperatorToken ''/'', IntegerToken 5,
                      OperatorToken ''+'', IntegerToken 1]\<rparr>"
  have d: "divides_by_zero ?T" by simp
  have d1: "divides_by_zero_001 ?T" by simp
  have n: "New (runes ''1+5/0'') = Inr ?L"
    by (simp add: New_eq charArray_runes byte_tokens_def is_digit_def)
  have p: "parse 6 ?L 0 = Some (Inr (?T, \<lparr>tokens = []\<rparr>))"
    by (simp add: eval_nat_numeral cursor_defs)
  have p': "parse (Suc (length (tokens ?L))) ?L 0 = Some (Inr (?T, \<lparr>tokens = []\<rparr>))"
    using p by (simp add: eval_nat_numeral)
  show ?thesis
    using d d1 n p p'
      division_by_zero_runtime_panic [of ?T "runes ''1+5/0''" ?L ?T "\<lparr>tokens = []\<rparr>"]
    by blast
qed

subsection \<open>C4: empty input\<close>

lemma main_empty: "main (runes []) = Some (Inl (Runtime NilPointerDereference))"
  by (simp add: main_def New_eq charArray_runes cursor_defs)

lemma Reverse_001_Nil: "Reverse_001 [] = []"
  using Reverse_001_length [of "[]"] by simp

lemma New_whitespace:
  "list_all whitespace_rune input \<Longrightarrow> New input = Inr \<lparr>tokens = []\<rparr>"
  by (simp add: New_eq whitespace_bytes)

lemma New_001_whitespace:
  "list_all whitespace_rune input \<Longrightarrow> New_001 input = Inr \<lparr>tokens = []\<rparr>"
  by (simp add: New_001_def tokenArray_loop_eq whitespace_bytes Reverse_001_Nil)

text \<open>
  Claim C4, as stated, fails in main.go: on the empty input \<open>next\<close> returns \<open>nil\<close> and
  leaves the cursor as it is, and \<open>main\<close> ends with the runtime panic of a method call on
  \<open>nil\<close>, not with a failure of its own.
\<close>

theorem empty_input_nil_next:
  "New (runes []) = Inr \<lparr>tokens = []\<rparr> \<and>
   Lexer_next \<lparr>tokens = []\<rparr> = (None, \<lparr>tokens = []\<rparr>) \<and>
   main (runes []) = Some (Inl (Runtime NilPointerDereference))"
  by (simp add: main_empty New_eq charArray_runes Lexer_next_def)

text \<open>
  Claim C4, amended. An empty or whitespace-only input gives no tokens. On the exhausted
  cursor \<open>next\<close> and \<open>peek\<close> of main.go return \<open>nil\<close> and change nothing; \<open>next\<close> of
  part_001 panics with \<open>Error: tokens empty\<close>, and so does its \<open>parse\<close>.
\<close>

theorem exhausted_cursor:
  "list_all whitespace_rune input \<Longrightarrow>
   New input = Inr \<lparr>tokens = []\<rparr> \<and>
   New_001 input = Inr \<lparr>tokens = []\<rparr> \<and>
   Lexer_next \<lparr>tokens = []\<rparr> = (None, \<lparr>tokens = []\<rparr>) \<and>
   Lexer_peek \<lparr>tokens = []\<rparr> = None \<and>
   Lexer_next_001 \<lparr>tokens = []\<rparr> = Inl (Explicit ''Error: tokens empty'') \<and>
   parse_001 (Suc n) \<lparr>tokens = []\<rparr> min_bp = Some (Inl (Explicit ''Error: tokens empty''))"
  by (simp add: New_whitespace New_001_whitespace cursor_defs)

text \<open>Claim C4, amended, at the input of a space and a newline.\<close>

theorem exhausted_cursor_witness:
  "list_all whitespace_rune [0x20, 0x0A] \<and>
   New [0x20, 0x0A] = Inr \<lparr>tokens = []\<rparr> \<and>
   New_001 [0x20, 0x0A] = Inr \<lparr>tokens = []\<rparr> \<and>
   Lexer_next_001 \<lparr>tokens = []\<rparr> = Inl (Explicit ''Error: tokens empty'') \<and>
   parse_001 (Suc 0) \<lparr>tokens = []\<rparr> 0 = Some (Inl (Explicit ''Error: tokens empty''))"
proof -
  have h: "list_all whitespace_rune [0x20, 0x0A]"
    by (simp add: whitespace_rune_def)
  show ?thesis
    using h exhausted_cursor [OF h, of 0 0] by simp
qed

subsection \<open>C5: the order of the tokens\<close>

lemma tokens_001_1p:
  "New_001 (runes ''1+'') = Inr \<lparr>tokens = [IntegerToken 1, OperatorToken ''+'']\<rparr>"
  by (simp add: New_001_def tokenArray_loop_eq charArray_runes byte_tokens_def is_digit_def
        Reverse_001_two)

lemma next_calls_001_1p:
  "next_calls_001 2 \<lparr>tokens = [IntegerToken 1, OperatorToken ''+'']\<rparr>
   = Inr [OperatorToken ''+'', IntegerToken 1]"
  by (simp add: eval_nat_numeral cursor_defs)

lemma parse_001_1p:
  "parse_001 3 \<lparr>tokens = [IntegerToken 1, OperatorToken ''+'']\<rparr> 0
   = Some (Inl (Explicit ''Expression should start with an integer''))"
  by (simp add: eval_nat_numeral cursor_defs)

lemma parse_001_1p_right_order:
  "parse_001 3 \<lparr>tokens = [OperatorToken ''+'', IntegerToken 1]\<rparr> 0
   = Some (Inl (Explicit ''Error: tokens empty''))"
  by (simp add: eval_nat_numeral cursor_defs)

lemma scan_1p:
  "tokenArray_loop (charArray (runes ''1+'')) [] = Inr [IntegerToken 1, OperatorToken ''+'']"
  by (simp add: tokenArray_loop_eq charArray_runes byte_tokens_def is_digit_def)

lemma main_go_order:
  "\<exists>l ts. New input = Inr l \<and> tokenArray_loop (charArray input) [] = Inr ts \<and>
     next_calls (length ts) l = map Some ts"
  using next_calls_rev [of "concat (map byte_tokens (charArray input))" "[]"]
  by (simp add: New_eq tokenArray_loop_eq)

text \<open>
  Claim C5 does not hold in part_001. Its \<open>Reverse\<close> stops while two elements are still
  between the indices, so for \<open>1+\<close> the two tokens stay as they were scanned, and \<open>next\<close>
  delivers the operator before the integer. \<open>parse\<close> then fails on the first token, where
  on the tokens in their order it would fail at the end of the input.
\<close>

theorem reverse_001_even_length_order:
  "tokenArray_loop (charArray (runes ''1+'')) [] = Inr [IntegerToken 1, OperatorToken ''+''] \<and>
   New_001 (runes ''1+'') = Inr \<lparr>tokens = [IntegerToken 1, OperatorToken ''+'']\<rparr> \<and>
   next_calls_001 2 \<lparr>tokens = [IntegerToken 1, OperatorToken ''+'']\<rparr>
     = Inr [OperatorToken ''+'', IntegerToken 1] \<and>
   parse_001 3 \<lparr>tokens = [IntegerToken 1, OperatorToken ''+'']\<rparr> 0
     = Some (Inl (Explicit ''Expression should start with an integer'')) \<and>
   parse_001 3 \<lparr>tokens = [OperatorToken ''+'', IntegerToken 1]\<rparr> 0
     = Some (Inl (Explicit ''Error: tokens empty''))"
  by (intro conjI scan_1p tokens_001_1p next_calls_001_1p parse_001_1p parse_001_1p_right_order)

subsection \<open>C6: prefix operators\<close>

lemma tokens_m3p5:
  "New (runes ''-3+5'') = Inr \<lparr>tokens = [IntegerToken 5, OperatorToken ''+'', IntegerToken 3, OperatorToken ''-'']\<rparr>"
  by (simp add: New_eq charArray_runes byte_tokens_def is_digit_def)

lemma parse_m3p5:
  "parse 5 \<lparr>tokens = [IntegerToken 5, OperatorToken ''+'', IntegerToken 3, OperatorToken ''-'']\<rparr> 0
   = Some (Inr (InfixExpression
                  (PrefixExpression ''-'' (TokenExpression (IntegerToken 3)))
                  (TokenExpression (IntegerToken 5)) ''+'', \<lparr>tokens = []\<rparr>))"
  by (simp add: eval_nat_numeral cursor_defs)

lemma eval_m3p5:
  "evalExpression (InfixExpression
                  (PrefixExpression ''-'' (TokenExpression (IntegerToken 3)))
                  (TokenExpression (IntegerToken 5)) ''+'') = Inr 2"
  by (simp add: operationFunctionMap_def)

lemma main_m3p5: "main (runes ''-3+5'') = Some (Inr 2)"
  by (simp add: main_def tokens_m3p5 cursor_defs operationFunctionMap_def)

text \<open>
  Claim C6. The input \<open>-3+5\<close> evaluates to 2: the prefix \<open>-\<close> has the right binding
  power 5, above every infix operator, so the tree is \<open>(-3) + 5\<close>.
\<close>

theorem prefix_binds_tighter:
  "New (runes ''-3+5'') = Inr \<lparr>tokens = [IntegerToken 5, OperatorToken ''+'', IntegerToken 3, OperatorToken ''-'']\<rparr> \<and>
   parse 5 \<lparr>tokens = [IntegerToken 5, OperatorToken ''+'', IntegerToken 3, OperatorToken ''-'']\<rparr> 0
   = Some (Inr (InfixExpression
                  (PrefixExpression ''-'' (TokenExpression (IntegerToken 3)))
                  (TokenExpression (IntegerToken 5)) ''+'', \<lparr>tokens = []\<rparr>)) \<and>
   evalExpression (InfixExpression
                  (PrefixExpression ''-'' (TokenExpression (IntegerToken 3)))
                  (TokenExpression (IntegerToken 5)) ''+'') = Inr 2 \<and>
   main (runes ''-3+5'') = Some (Inr 2) \<and>
   map_index prefixBindingPowerMap ''-'' 1 = Inr 5 \<and>
   map_index prefixBindingPowerMap ''+'' 1 = Inr 5 \<and>
   map_index operatorBindingPowerMap ''*'' 0 = Inr 3 \<and>
   map_index operatorBindingPowerMap ''/'' 0 = Inr 3 \<and>
   map_index operatorBindingPowerMap ''+'' 0 = Inr 1 \<and>
   map_index operatorBindingPowerMap ''-'' 0 = Inr 1"
  using binding_powers
  by (intro conjI tokens_m3p5 parse_m3p5 eval_m3p5 main_m3p5) simp_all

subsection \<open>C7: the binding-power tables\<close>

lemma tokens_star3:
  "New (runes ''*3'') = Inr \<lparr>tokens = [IntegerToken 3, OperatorToken ''*'']\<rparr>"
  by (simp add: New_eq charArray_runes byte_tokens_def is_digit_def)

lemma main_star3: "main (runes ''*3'') = Some (Inl (Runtime IndexOutOfRange))"
  by (simp add: main_def tokens_star3 cursor_defs)

lemma parse_star3:
  "parse 3 \<lparr>tokens = [IntegerToken 3, OperatorToken ''*'']\<rparr> 0
   = Some (Inl (Runtime IndexOutOfRange))"
  by (simp add: eval_nat_numeral cursor_defs)

lemma parse_000_star3:
  "parse_000 3 \<lparr>tokens = [IntegerToken 3, OperatorToken ''*'']\<rparr> 0
   = Some (Inl (Runtime IndexOutOfRange))"
  by (simp add: eval_nat_numeral cursor_defs)

lemma prefix_table_star:
  "prefixBindingPowerMap ''*'' = None \<and>
   map_index prefixBindingPowerMap ''*'' 1 = Inl (Runtime IndexOutOfRange)"
  by (simp add: cursor_defs)

lemma infix_table_complete:
  "is_tokenizer_token (OperatorToken lit) \<Longrightarrow>
   \<exists>l_bp r_bp. map_index operatorBindingPowerMap lit 0 = Inr l_bp \<and>
                map_index operatorBindingPowerMap lit 1 = Inr r_bp"
  by (auto simp add: cursor_defs)

text \<open>
  Claim C7 does not hold for a leading \<open>*\<close>: the prefix table has no entry for it, the
  lookup is not guarded, and indexing the nil slice raises the runtime panic of an index out
  of range, in main.go and in part_000.
\<close>

theorem leading_star_unguarded_lookup:
  "New (runes ''*3'') = Inr \<lparr>tokens = [IntegerToken 3, OperatorToken ''*'']\<rparr> \<and>
   (prefixBindingPowerMap ''*'' = None \<and>
    map_index prefixBindingPowerMap ''*'' 1 = Inl (Runtime IndexOutOfRange)) \<and>
   parse 3 \<lparr>tokens = [IntegerToken 3, OperatorToken ''*'']\<rparr> 0
     = Some (Inl (Runtime IndexOutOfRange)) \<and>
   parse_000 3 \<lparr>tokens = [IntegerToken 3, OperatorToken ''*'']\<rparr> 0
     = Some (Inl (Runtime IndexOutOfRange)) \<and>
   main (runes ''*3'') = Some (Inl (Runtime IndexOutOfRange))"
  by (intro conjI tokens_star3 parse_star3 parse_000_star3 main_star3
        prefix_table_star [THEN conjunct1] prefix_table_star [THEN conjunct2])

subsection \<open>C8: characters the tokenizer drops\<close>

lemma examples_ws:
  "New (runes ''1 + 2'') = New (runes ''1+2'') \<and>
   New (runes ''1@+@2'') = New (runes ''1+2'')"
  by (simp add: New_eq charArray_runes byte_tokens_def is_digit_def)

lemma charArray_i_plus_i: "charArray [0x131, 0x2B, 0x131] = ''1+1''"
  by (simp add: charArray_def char_of_eq_iff)

lemma tokens_i_plus_i:
  "New [0x131, 0x2B, 0x131]
   = Inr \<lparr>tokens = [IntegerToken 1, OperatorToken ''+'', IntegerToken 1]\<rparr>"
  by (simp add: New_eq charArray_i_plus_i byte_tokens_def is_digit_def)

lemma main_i_plus_i: "main [0x131, 0x2B, 0x131] = Some (Inr 2)"
  by (simp add: main_def tokens_i_plus_i cursor_defs operationFunctionMap_def)

lemma New_Nil: "New [] = Inr \<lparr>tokens = []\<rparr>"
  by (simp add: New_eq charArray_def)

text \<open>
  Claim C8 does not hold beyond one byte. The rune U+0131 (the dotless i) is no digit, yet
  \<open>byte(char)\<close> keeps its low byte \<open>0x31\<close>, the digit 1, and the tokenizer makes an
  integer token of it: the input of U+0131, \<open>+\<close>, U+0131 evaluates to 2.
\<close>

theorem low_byte_rune_tokenized:
  "charArray [0x131] = ''1'' \<and>
   New [0x131] = Inr \<lparr>tokens = [IntegerToken 1]\<rparr> \<and>
   New [] = Inr \<lparr>tokens = []\<rparr> \<and>
   main [0x131, 0x2B, 0x131] = Some (Inr 2)"
  by (intro conjI dotless_i2 dotless_i New_Nil main_i_plus_i)

subsection \<open>C9: termination\<close>

text \<open>
  Claim C9. \<open>main\<close> returns or panics on every input, and \<open>parse\<close> (of main.go and of
  part_001) does so within a depth of one more than the number of tokens. The tokenizer and
  the evaluators are total by their definitions (structural recursion, and a measure for
  \<open>Reverse\<close>).
\<close>

theorem parsing_terminates:
  "(\<exists>r. main a = Some r) \<and>
   (length (tokens l) < n \<longrightarrow>
      (\<exists>r. parse n l min_bp = Some r) \<and> (\<exists>r. parse_001 n l min_bp = Some r)) \<and>
   (parse n l min_bp = Some (Inr (e, l')) \<longrightarrow> length (tokens l') < length (tokens l)) \<and>
   (parse_001 n l min_bp = Some (Inr (e, l')) \<longrightarrow> length (tokens l') < length (tokens l))"
proof (intro conjI impI)
  show "\<exists>r. main a = Some r"
    using main_returns [of a] by auto
next
  assume "length (tokens l) < n"
  then show "\<exists>r. parse n l min_bp = Some r"
    using parse_returns_both [of n] by auto
next
  assume "length (tokens l) < n"
  then show "\<exists>r. parse_001 n l min_bp = Some r"
    using parse_001_returns_both [of n] by auto
next
  assume "parse n l min_bp = Some (Inr (e, l'))"
  then show "length (tokens l') < length (tokens l)"
    by (rule parse_shrinks)
next
  assume "parse_001 n l min_bp = Some (Inr (e, l'))"
  then show "length (tokens l') < length (tokens l)"
    by (rule parse_001_shrinks)
qed

text \<open>Claim C9 at one token and depth 2.\<close>

theorem parsing_terminates_witness:
  "length (tokens \<lparr>tokens = [IntegerToken 1]\<rparr>) < 2 \<and>
   parse 2 \<lparr>tokens = [IntegerToken 1]\<rparr> 0
     = Some (Inr (TokenExpression (IntegerToken 1), \<lparr>tokens = []\<rparr>)) \<and>
   parse_001 2 \<lparr>tokens = [IntegerToken 1]\<rparr> 0
     = Some (Inr (TokenExpression (IntegerToken 1), \<lparr>tokens = []\<rparr>)) \<and>
   (\<exists>r. main [] = Some r) \<and>
   length (tokens \<lparr>tokens = []\<rparr>) < length (tokens \<lparr>tokens = [IntegerToken 1]\<rparr>)"
proof -
  have p: "parse 2 \<lparr>tokens = [IntegerToken 1]\<rparr> 0
     = Some (Inr (TokenExpression (IntegerToken 1), \<lparr>tokens = []\<rparr>))"
    by (simp add: eval_nat_numeral cursor_defs)
  have q: "parse_001 2 \<lparr>tokens = [IntegerToken 1]\<rparr> 0
     = Some (Inr (TokenExpression (IntegerToken 1), \<lparr>tokens = []\<rparr>))"
    by (simp add: eval_nat_numeral cursor_defs)
  show ?thesis
    using p q
      parsing_terminates [of "[]" "\<lparr>tokens = [IntegerToken 1]\<rparr>" 2 0
        "TokenExpression (IntegerToken 1)" "\<lparr>tokens = []\<rparr>"]
    by simp
qed

subsection \<open>C10: the tokens of the tokenizer\<close>

lemma concat_byte_tokens_ok: "list_all is_tokenizer_token (concat (map byte_tokens cs))"
  by (induction cs) (simp_all add: byte_tokens_ok)

text \<open>
  Claim C10. For every input the tokenizer returns a lexer, in main.go and in part_001, and
  each of its tokens is an integer token with a value from 0 to 9 or an operator token with
  one of the four literals; no prefix token occurs.
\<close>

theorem tokenizer_tokens:
  "(\<exists>l. New input = Inr l \<and> list_all is_tokenizer_token (tokens l)) \<and>
   (\<exists>l. New_001 input = Inr l \<and> list_all is_tokenizer_token (tokens l))"
proof
  show "\<exists>l. New input = Inr l \<and> list_all is_tokenizer_token (tokens l)"
    using concat_byte_tokens_ok [of "charArray input"] by (simp add: New_eq)
next
  obtain ts where ts: "set ts = set (concat (map byte_tokens (charArray input)))"
    "New_001 input = Inr \<lparr>tokens = ts\<rparr>"
    using New_001_eq [of input] by blast
  have "list_all is_tokenizer_token ts"
    using concat_byte_tokens_ok [of "charArray input"] ts(1) by (simp add: list_all_iff)
  with ts(2) show "\<exists>l. New_001 input = Inr l \<and> list_all is_tokenizer_token (tokens l)"
    by simp
qed

end
